theory Spec2Isabelle
  imports Complex_Main "HOL-Library.AList" "HOL-Library.Multiset"
begin

section \<open>JSON values and the Python operations the program applies to them\<close>

text \<open>
  The feed's responses and the three persisted files are JSON. The program never checks
  what it reads: it calls \<^verbatim>\<open>.get\<close>, subscripts, divides and compares, and relies on
  \<^verbatim>\<open>try/except\<close> for everything that does not fit. The model keeps that: a JSON value is a
  datatype, every Python operation is a function that returns the exception as a value.

  A Python \<^verbatim>\<open>dict\<close> keeps its keys in insertion order, an assignment to a present key
  keeps the key's place, one to a new key appends. That is an association list with
  \<^const>\<open>AList.update\<close>, read with \<^const>\<open>map_of\<close>.

  Numbers are exact rationals. Python's \<^verbatim>\<open>int / 100\<close> gives the nearest binary float;
  on hundredths of integers of ordinary size the comparisons the program makes agree with
  the exact ones. Not-a-number and the infinities are outside the model.
\<close>

datatype json =
    JNull
  | JBool bool
  | JNum rat
  | JStr string
  | JList "json list"
  | JObj "(string \<times> json) list"

datatype py_error =
    AttributeError
  | KeyError
  | IndexError
  | TypeError
  | ValueError
  | OSError
  | JSONDecodeError
  | RequestException

text \<open>Sequencing of computations that may raise: the first exception wins.\<close>

definition bind_py :: "py_error + 'a \<Rightarrow> ('a \<Rightarrow> py_error + 'b) \<Rightarrow> py_error + 'b" where
  "bind_py r f = (case r of Inl e \<Rightarrow> Inl e | Inr x \<Rightarrow> f x)"

text \<open>\<^verbatim>\<open>x.get(key, default)\<close>: only a dict has the method.\<close>

fun dict_get :: "json \<Rightarrow> string \<Rightarrow> json \<Rightarrow> py_error + json" where
  "dict_get (JObj kvs) k d = Inr (case map_of kvs k of Some v \<Rightarrow> v | None \<Rightarrow> d)"
| "dict_get _ k d = Inl AttributeError"

text \<open>\<^verbatim>\<open>x[key]\<close> with a string key: a missing key of a dict, or a value that takes no string index.\<close>

fun subscript_key :: "json \<Rightarrow> string \<Rightarrow> py_error + json" where
  "subscript_key (JObj kvs) k = (case map_of kvs k of Some v \<Rightarrow> Inr v | None \<Rightarrow> Inl KeyError)"
| "subscript_key _ k = Inl TypeError"

text \<open>\<^verbatim>\<open>x[0]\<close>.\<close>

fun subscript0 :: "json \<Rightarrow> py_error + json" where
  "subscript0 (JList []) = Inl IndexError"
| "subscript0 (JList (v # vs)) = Inr v"
| "subscript0 (JStr []) = Inl IndexError"
| "subscript0 (JStr (c # cs)) = Inr (JStr [c])"
| "subscript0 (JObj kvs) = Inl KeyError"
| "subscript0 _ = Inl TypeError"

text \<open>The value of \<^verbatim>\<open>x\<close> in arithmetic and in a comparison with a number: \<^verbatim>\<open>bool\<close> is a subclass of \<^verbatim>\<open>int\<close>.\<close>

fun py_num :: "json \<Rightarrow> rat option" where
  "py_num (JNum r) = Some r"
| "py_num (JBool b) = Some (if b then 1 else 0)"
| "py_num _ = None"

text \<open>\<^verbatim>\<open>x / n\<close> for a number literal \<^verbatim>\<open>n\<close> that is not zero.\<close>

definition truediv :: "json \<Rightarrow> rat \<Rightarrow> py_error + rat" where
  "truediv x n = (case py_num x of Some r \<Rightarrow> Inr (r / n) | None \<Rightarrow> Inl TypeError)"

text \<open>\<^verbatim>\<open>p < x\<close> and \<^verbatim>\<open>p <= x\<close> and \<^verbatim>\<open>x <= p\<close> for a float \<^verbatim>\<open>p\<close>.\<close>

definition float_lt :: "rat \<Rightarrow> json \<Rightarrow> py_error + bool" where
  "float_lt p x = (case py_num x of Some r \<Rightarrow> Inr (p < r) | None \<Rightarrow> Inl TypeError)"

definition float_le :: "rat \<Rightarrow> json \<Rightarrow> py_error + bool" where
  "float_le p x = (case py_num x of Some r \<Rightarrow> Inr (p \<le> r) | None \<Rightarrow> Inl TypeError)"

definition le_number :: "json \<Rightarrow> rat \<Rightarrow> py_error + bool" where
  "le_number x p = (case py_num x of Some r \<Rightarrow> Inr (r \<le> p) | None \<Rightarrow> Inl TypeError)"

text \<open>Truth value of \<^verbatim>\<open>x\<close> in \<^verbatim>\<open>if x:\<close>.\<close>

fun truthy :: "json \<Rightarrow> bool" where
  "truthy JNull = False"
| "truthy (JBool b) = b"
| "truthy (JNum r) = (r \<noteq> 0)"
| "truthy (JStr s) = (s \<noteq> [])"
| "truthy (JList vs) = (vs \<noteq> [])"
| "truthy (JObj kvs) = (kvs \<noteq> [])"

text \<open>\<^verbatim>\<open>x != 0\<close>.\<close>

definition ne_zero :: "json \<Rightarrow> bool" where
  "ne_zero x = (py_num x \<noteq> Some 0)"

text \<open>The items a \<^verbatim>\<open>for\<close> loop draws from \<^verbatim>\<open>x\<close>: a dict gives its keys, a string its characters.\<close>

fun py_iter :: "json \<Rightarrow> py_error + json list" where
  "py_iter (JList vs) = Inr vs"
| "py_iter (JObj kvs) = Inr (map (\<lambda>kv. JStr (fst kv)) kvs)"
| "py_iter (JStr s) = Inr (map (\<lambda>c. JStr [c]) s)"
| "py_iter _ = Inl TypeError"


text \<open>
  \<^verbatim>\<open>x.strip()\<close>: only a string has the method. Strings are byte strings here, so the
  white space removed is ASCII's (tab to carriage return, the four separators, space).
\<close>

definition is_space :: "char \<Rightarrow> bool" where
  "is_space c = (c \<in> set [CHR 0x09, CHR 0x0A, CHR 0x0B, CHR 0x0C, CHR 0x0D,
                            CHR 0x1C, CHR 0x1D, CHR 0x1E, CHR 0x1F, CHR '' ''])"

definition strip :: "string \<Rightarrow> string" where
  "strip s = rev (dropWhile is_space (rev (dropWhile is_space s)))"

fun py_strip :: "json \<Rightarrow> py_error + string" where
  "py_strip (JStr s) = Inr (strip s)"
| "py_strip _ = Inl AttributeError"

text \<open>
  Two things the program takes from outside are parameters of the model: the text
  \<^verbatim>\<open>str(x)\<close> of a JSON value, and the readings of \<^verbatim>\<open>time.time()\<close>, the \<open>k\<close>-th call
  answering \<open>time_time k\<close>. Every theorem holds for all of them.
\<close>

record builtins =
  py_str :: "json \<Rightarrow> string"
  time_time :: "nat \<Rightarrow> rat"

section \<open>Item normalisation and the lowest-price records (WorkerThread.process\_response)\<close>

text \<open>The dict \<^verbatim>\<open>product\<close> that the loop builds for one item of the feed.\<close>

record product =
  p_id :: string
  p_name :: string
  p_price :: rat
  p_image :: string
  p_detail_url :: string

text \<open>The default name, \<^verbatim>\<open>'\<dots>'\<close> of four CJK characters, as its UTF-8 bytes.\<close>

definition unknown_name :: string where
  "unknown_name = [CHR 0xE6, CHR 0x9C, CHR 0xAA, CHR 0xE7, CHR 0x9F, CHR 0xA5,
                   CHR 0xE5, CHR 0x95, CHR 0x86, CHR 0xE5, CHR 0x93, CHR 0x81]"

definition detail_url_of :: "string \<Rightarrow> string" where
  "detail_url_of product_id = ''https://mall.bilibili.com/neul-next/index.html?itemsId='' @ product_id"

text \<open>
  The first half of the loop body: from \<^verbatim>\<open>product_id = str(item.get('c2cItemsId', ''))\<close>
  to the end of the dict literal. Any step may raise.
\<close>

definition normalize_item :: "builtins \<Rightarrow> json \<Rightarrow> py_error + product" where
  "normalize_item B item =
     bind_py (dict_get item ''c2cItemsId'' (JStr [])) (\<lambda>raw_id.
     let product_id = py_str B raw_id in
     bind_py (dict_get item ''detailDtoList'' (JList [JObj []])) (\<lambda>dtos.
     bind_py (subscript0 dtos) (\<lambda>detail.
     bind_py (dict_get detail ''name'' (JStr unknown_name)) (\<lambda>raw_name.
     bind_py (py_strip raw_name) (\<lambda>name.
     bind_py (dict_get item ''price'' (JNum 0)) (\<lambda>raw_price.
     bind_py (truediv raw_price 100) (\<lambda>price.
     bind_py (dict_get detail ''img'' (JStr [])) (\<lambda>img.
       Inr \<lparr> p_id = product_id, p_name = name, p_price = price,
             p_image = ''https:'' @ py_str B img,
             p_detail_url = detail_url_of product_id \<rparr>))))))))"

text \<open>
  The lowest-price records, \<^verbatim>\<open>self.parent.min_price_products\<close>: a dict from the name to
  a dict. Records read back from the file are whatever the file held, so a record is a
  JSON value.
\<close>

type_synonym min_prices = "(string \<times> json) list"

definition min_price_record :: "product \<Rightarrow> rat \<Rightarrow> json" where
  "min_price_record product now =
     JObj [(''id'', JStr (p_id product)),
           (''name'', JStr (p_name product)),
           (''price'', JNum (p_price product)),
           (''image'', JStr (p_image product)),
           (''url'', JStr (p_detail_url product)),
           (''timestamp'', JNum now)]"

text \<open>
  The condition of the update:
  \<^verbatim>\<open>product['name'] not in mp or product['price'] < mp[product['name']]['price']\<close>.
\<close>

definition is_lower :: "min_prices \<Rightarrow> product \<Rightarrow> py_error + bool" where
  "is_lower mp product =
     (case map_of mp (p_name product) of
        None \<Rightarrow> Inr True
      | Some stored \<Rightarrow> bind_py (subscript_key stored ''price'') (float_lt (p_price product)))"

text \<open>
  One round of the loop on the state (records, number of clock readings so far). The
  result is the product appended to \<^verbatim>\<open>products\<close>, or nothing when the body raised: the
  inner \<^verbatim>\<open>except Exception\<close> logs and goes on with the next item.
\<close>

definition process_item ::
  "builtins \<Rightarrow> json \<Rightarrow> min_prices \<times> nat \<Rightarrow> product option \<times> min_prices \<times> nat" where
  "process_item B item st =
     (case st of (mp, k) \<Rightarrow>
       (case bind_py (normalize_item B item) (\<lambda>product.
               bind_py (is_lower mp product) (\<lambda>lower. Inr (product, lower))) of
          Inl e \<Rightarrow> (None, mp, k)
        | Inr (product, lower) \<Rightarrow>
            if lower
            then (Some product,
                  AList.update (p_name product) (min_price_record product (time_time B k)) mp,
                  Suc k)
            else (Some product, mp, k)))"

fun process_items ::
  "builtins \<Rightarrow> json list \<Rightarrow> min_prices \<times> nat \<Rightarrow> product list \<times> min_prices \<times> nat" where
  "process_items B [] st = ([], st)"
| "process_items B (item # items) st =
     (case process_item B item st of (r, st') \<Rightarrow>
       (case process_items B items st' of (products, st'') \<Rightarrow>
         ((case r of None \<Rightarrow> products | Some product \<Rightarrow> product # products), st'')))"

text \<open>
  What comes before the loop: the status code of the body, and the expression the loop
  iterates over. An exception here is caught by the outer handler.
\<close>

definition response_items :: "json \<Rightarrow> py_error + json list" where
  "response_items data =
     bind_py (dict_get data ''code'' JNull) (\<lambda>code.
       if ne_zero code then Inl ValueError
       else bind_py (dict_get data ''data'' (JObj [])) (\<lambda>d.
            bind_py (dict_get d ''data'' (JList [])) py_iter))"

text \<open>
  \<^verbatim>\<open>process_response\<close>: the products, the records and clock afterwards, and whether
  \<^verbatim>\<open>error_signal\<close> was emitted (the outer handler emits it and returns the empty list).
\<close>

definition process_response ::
  "builtins \<Rightarrow> json \<Rightarrow> min_prices \<times> nat \<Rightarrow> (product list \<times> min_prices \<times> nat) \<times> py_error option" where
  "process_response B data st =
     (case response_items data of
        Inl e \<Rightarrow> (([], st), Some e)
      | Inr items \<Rightarrow> (process_items B items st, None))"

text \<open>The price a record carries, when it carries one.\<close>

definition stored_price :: "json \<Rightarrow> rat option" where
  "stored_price r = (case subscript_key r ''price'' of Inr v \<Rightarrow> py_num v | Inl e \<Rightarrow> None)"

definition min_price_of :: "min_prices \<Rightarrow> string \<Rightarrow> rat option" where
  "min_price_of mp name = (case map_of mp name of None \<Rightarrow> None | Some r \<Rightarrow> stored_price r)"

section \<open>The window's state (ProductMonitor) and the worker's (WorkerThread)\<close>

text \<open>
  A product card is a widget. Of a card the model keeps what the program reads back from
  it or decides by it: the object name, the text of the two labels (the price label shows
  the price with two decimals, and the program parses the number back from that text),
  the URL handed to the image loader if any, the URL the card opens, which style sheets
  are the highlighted ones, and how many "new" badges the price row holds. Geometry,
  layout and the dialogs are outside the model: the calls into Qt are taken to succeed, and
  so is the arithmetic on \<^verbatim>\<open>card_width\<close> and \<^verbatim>\<open>card_height\<close> that sizes a card (it
  would raise if a setting read from the file were no number).
\<close>

record card =
  object_name :: string
  name_text :: string
  price_text :: rat
  image_loader :: "json option"
  view_url :: json
  card_new_style :: bool
  price_new_style :: bool
  new_labels :: nat

record worker =
  next_id :: json
  is_refresh :: bool
  auto_load_more :: bool
  auto_load_pages :: int
  worker_api_cooldown :: json

record monitor =
  product_cache :: "(string \<times> card) list"
  min_price_products :: min_prices
  refresh_interval :: int
  cookies :: json
  last_refresh_count :: nat
  total_products_count :: nat
  last_refresh_ids :: "string set"
  columns_count :: json
  sidebar_columns_count :: json
  api_cooldown :: json
  card_width :: json
  card_height :: json
  is_paused :: bool
  remaining_time :: int
  price_alert_enabled :: json
  price_alert_threshold :: json
  refresh_btn_enabled :: bool
  load_more_btn_enabled :: bool
  worker_thread :: worker

section \<open>Price alerts (ProductMonitor.check\_price\_alerts)\<close>

text \<open>
  The loop that collects \<^verbatim>\<open>alert_products\<close>; the threshold is whatever the settings
  hold, so the comparison may raise.
\<close>

fun alert_products :: "json \<Rightarrow> product list \<Rightarrow> py_error + product list" where
  "alert_products threshold [] = Inr []"
| "alert_products threshold (product # products) =
     bind_py (float_le (p_price product) threshold) (\<lambda>low.
     bind_py (alert_products threshold products) (\<lambda>rest.
       Inr (if low then product # rest else rest)))"

text \<open>
  The function returns nothing; its result is the call of \<^verbatim>\<open>show_price_alert\<close>, made
  when the list is not empty. The model returns the list: empty means no alert.
\<close>

definition check_price_alerts :: "monitor \<Rightarrow> product list \<Rightarrow> py_error + product list" where
  "check_price_alerts m products =
     (if \<not> truthy (price_alert_enabled m) then Inr []
      else bind_py (le_number (price_alert_threshold m) 0) (\<lambda>not_positive.
             if not_positive then Inr []
             else alert_products (price_alert_threshold m) products))"

section \<open>Product cards and the product cache (add\_product\_card, update\_products)\<close>

text \<open>\<^verbatim>\<open>key in x\<close> for a string key.\<close>

fun is_substring :: "string \<Rightarrow> string \<Rightarrow> bool" where
  "is_substring sub [] = (sub = [])"
| "is_substring sub (c # cs) = (take (length sub) (c # cs) = sub \<or> is_substring sub cs)"

fun py_in :: "string \<Rightarrow> json \<Rightarrow> py_error + bool" where
  "py_in k (JObj kvs) = Inr (map_of kvs k \<noteq> None)"
| "py_in k (JStr s) = Inr (is_substring k s)"
| "py_in k (JList vs) = Inr (JStr k \<in> set vs)"
| "py_in k _ = Inl TypeError"

text \<open>The text a label takes: Qt refuses anything but a string.\<close>

fun label_text :: "json \<Rightarrow> py_error + string" where
  "label_text (JStr s) = Inr s"
| "label_text _ = Inl TypeError"

text \<open>
  \<^verbatim>\<open>f"{x:.2f}"\<close>, read as the number the text denotes: \<^verbatim>\<open>x\<close> rounded to hundredths. A
  string has no such format, nor has \<^verbatim>\<open>None\<close> or a container. (Which way an exact tie
  goes depends on the binary float; the statements below use only that a number of
  hundredths is left as it is and that rounding twice is rounding once.)
\<close>

definition round2 :: "rat \<Rightarrow> rat" where
  "round2 r = of_int (round (r * 100)) / 100"

fun format_2f :: "json \<Rightarrow> py_error + rat" where
  "format_2f (JStr s) = Inl ValueError"
| "format_2f x = (case py_num x of Some r \<Rightarrow> Inr (round2 r) | None \<Rightarrow> Inl TypeError)"

definition add_product_card :: "builtins \<Rightarrow> json \<Rightarrow> bool \<Rightarrow> py_error + card" where
  "add_product_card B product is_new =
     bind_py (subscript_key product ''id'') (\<lambda>pid.
     bind_py (py_in ''image'' product) (\<lambda>has_image.
     bind_py (if has_image then subscript_key product ''image'' else Inr JNull) (\<lambda>image.
     bind_py (bind_py (subscript_key product ''name'') label_text) (\<lambda>name.
     bind_py (bind_py (subscript_key product ''price'') format_2f) (\<lambda>price.
     bind_py (py_in ''detail_url'' product) (\<lambda>has_url.
     bind_py (if has_url then subscript_key product ''detail_url''
              else Inr (JStr (detail_url_of (py_str B pid)))) (\<lambda>url.
       Inr \<lparr> object_name = ''product_'' @ py_str B pid,
             name_text = name,
             price_text = price,
             image_loader = (if has_image \<and> truthy image then Some image else None),
             view_url = url,
             card_new_style = is_new,
             price_new_style = is_new,
             new_labels = (if is_new then 1 else 0) \<rparr>)))))))"

text \<open>The dict that \<^verbatim>\<open>process_response\<close> built, as \<^verbatim>\<open>update_products\<close> receives it.\<close>

definition product_dict :: "product \<Rightarrow> json" where
  "product_dict product =
     JObj [(''id'', JStr (p_id product)),
           (''name'', JStr (p_name product)),
           (''price'', JNum (p_price product)),
           (''image'', JStr (p_image product)),
           (''detail_url'', JStr (p_detail_url product))]"

text \<open>
  Taking the mark of the previous batch off a card (plain style, every "new" badge
  removed) and putting the mark on a card that is seen again (highlighted style, one more
  badge). Nothing else of the card changes.
\<close>

definition unmark :: "card \<Rightarrow> card" where
  "unmark c = c\<lparr>card_new_style := False, new_labels := 0\<rparr>"

definition mark :: "card \<Rightarrow> card" where
  "mark c = c\<lparr>card_new_style := True, new_labels := Suc (new_labels c)\<rparr>"

definition unmark_old :: "string set \<Rightarrow> (string \<times> card) list \<Rightarrow> (string \<times> card) list" where
  "unmark_old old_refresh_ids cache =
     map (\<lambda>(pid, c). (pid, if pid \<in> old_refresh_ids then unmark c else c)) cache"

text \<open>
  The body of \<^verbatim>\<open>for product in products\<close> on the cache and the two counters
  \<^verbatim>\<open>new_products_count\<close> and \<^verbatim>\<open>updated_products_count\<close>.
\<close>

definition upsert_product ::
  "builtins \<Rightarrow> product \<Rightarrow> (string \<times> card) list \<times> nat \<times> nat
     \<Rightarrow> py_error + (string \<times> card) list \<times> nat \<times> nat" where
  "upsert_product B product st =
     (case st of (cache, new_count, updated_count) \<Rightarrow>
        if map_of cache (p_id product) = None
        then bind_py (add_product_card B (product_dict product) True) (\<lambda>c.
               Inr (AList.update (p_id product) c cache, Suc new_count, updated_count))
        else Inr (AList.map_entry (p_id product) mark cache, new_count, Suc updated_count))"

text \<open>The loop; an exception leaves the state as the rounds before it made it.\<close>

fun upsert_products ::
  "builtins \<Rightarrow> product list \<Rightarrow> (string \<times> card) list \<times> nat \<times> nat
     \<Rightarrow> ((string \<times> card) list \<times> nat \<times> nat) \<times> py_error option" where
  "upsert_products B [] st = (st, None)"
| "upsert_products B (product # products) st =
     (case upsert_product B product st of
        Inl e \<Rightarrow> (st, Some e)
      | Inr st' \<Rightarrow> upsert_products B products st')"

section \<open>The persisted files (load\_settings, load\_product\_cache, load\_min\_price\_products and the three save functions)\<close>

text \<open>
  A file is absent, or holds something \<^verbatim>\<open>json.load\<close> cannot read (an empty or cut-off
  file is of that kind), or holds a JSON value. The text codec of the standard library is
  taken to give back the value that was dumped.
\<close>

datatype disk_file = Missing | Garbled | Content json

record files =
  cookies_json :: disk_file
  settings_json :: disk_file
  product_cache_json :: disk_file
  min_price_history_json :: disk_file

text \<open>\<^verbatim>\<open>with open(path, 'r') as f: json.load(f)\<close>.\<close>

definition json_load :: "disk_file \<Rightarrow> py_error + json" where
  "json_load f = (case f of Missing \<Rightarrow> Inl OSError | Garbled \<Rightarrow> Inl JSONDecodeError | Content v \<Rightarrow> Inr v)"











text \<open>
  Writing: \<^verbatim>\<open>with open(path, 'w') as f: json.dump(value, f)\<close>. Opening for writing
  empties the file at once; the dump then fills it. There is no temporary file and no
  rename. The two steps are kept apart so that a run can stop between them.
\<close>

definition open_w :: "disk_file \<Rightarrow> disk_file" where
  "open_w f = Garbled"

definition json_dump :: "json \<Rightarrow> disk_file \<Rightarrow> disk_file" where
  "json_dump v f = Content v"

definition write_steps :: "json \<Rightarrow> (disk_file \<Rightarrow> disk_file) list" where
  "write_steps v = [open_w, json_dump v]"

definition run_steps :: "(disk_file \<Rightarrow> disk_file) list \<Rightarrow> disk_file \<Rightarrow> disk_file" where
  "run_steps steps f = fold (\<lambda>step g. step g) steps f"

text \<open>The file when the process dies after \<open>n\<close> of the steps.\<close>

definition stopped_after :: "nat \<Rightarrow> json \<Rightarrow> disk_file \<Rightarrow> disk_file" where
  "stopped_after n v f = run_steps (take n (write_steps v)) f"

text \<open>
  What may go wrong with a write: the open raises (the file is untouched), or the dump
  raises (the file is already emptied). The result is the file and the exception raised.
\<close>

datatype fault = No_fault | Open_fails | Dump_fails

definition write_json :: "fault \<Rightarrow> json \<Rightarrow> disk_file \<Rightarrow> disk_file \<times> py_error option" where
  "write_json ft v f =
     (case ft of
        No_fault \<Rightarrow> (run_steps (write_steps v) f, None)
      | Open_fails \<Rightarrow> (f, Some OSError)
      | Dump_fails \<Rightarrow> (run_steps (take 1 (write_steps v)) f, Some OSError))"

definition settings_dict :: "monitor \<Rightarrow> json" where
  "settings_dict m =
     JObj [(''columns_count'', columns_count m),
           (''sidebar_columns_count'', sidebar_columns_count m),
           (''api_cooldown'', api_cooldown m),
           (''card_width'', card_width m),
           (''card_height'', card_height m),
           (''price_alert_threshold'', price_alert_threshold m),
           (''price_alert_enabled'', price_alert_enabled m)]"

text \<open>
  The entry \<^verbatim>\<open>save_product_cache\<close> writes for a card: name and price are read off the
  labels, the image is left empty on purpose ("the image URL may change, not saved for
  now"), the detail URL is made from the key.
\<close>

definition cache_entry :: "string \<Rightarrow> card \<Rightarrow> json" where
  "cache_entry pid c =
     JObj [(''id'', JStr pid),
           (''name'', JStr (name_text c)),
           (''price'', JNum (price_text c)),
           (''image'', JStr []),
           (''detail_url'', JStr (detail_url_of pid))]"

definition cache_data :: "monitor \<Rightarrow> json" where
  "cache_data m = JObj (map (\<lambda>(pid, c). (pid, cache_entry pid c)) (product_cache m))"

text \<open>
  The three save functions. Each catches every exception and logs it; the result is the
  files afterwards and the exception that was logged, if any.
\<close>

definition save_settings :: "fault \<Rightarrow> monitor \<Rightarrow> files \<Rightarrow> files \<times> py_error option" where
  "save_settings ft m fs =
     (case write_json ft (settings_dict m) (settings_json fs) of
        (f, logged) \<Rightarrow> (fs\<lparr>settings_json := f\<rparr>, logged))"

definition save_product_cache :: "fault \<Rightarrow> monitor \<Rightarrow> files \<Rightarrow> files \<times> py_error option" where
  "save_product_cache ft m fs =
     (case write_json ft (cache_data m) (product_cache_json fs) of
        (f, logged) \<Rightarrow> (fs\<lparr>product_cache_json := f\<rparr>, logged))"

definition save_min_price_products :: "fault \<Rightarrow> monitor \<Rightarrow> files \<Rightarrow> files \<times> py_error option" where
  "save_min_price_products ft m fs =
     (case write_json ft (JObj (min_price_products m)) (min_price_history_json fs) of
        (f, logged) \<Rightarrow> (fs\<lparr>min_price_history_json := f\<rparr>, logged))"

text \<open>Which fault, if any, meets the write of which file.\<close>

record io_faults =
  settings_fault :: fault
  product_cache_fault :: fault
  min_price_fault :: fault

text \<open>\<^verbatim>\<open>closeEvent\<close>: the lowest prices, the product cache, the settings, in this order.\<close>

definition closeEvent :: "io_faults \<Rightarrow> monitor \<Rightarrow> files \<Rightarrow> files" where
  "closeEvent io m fs =
     fst (save_settings (settings_fault io) m
       (fst (save_product_cache (product_cache_fault io) m
         (fst (save_min_price_products (min_price_fault io) m fs)))))"

section \<open>Applying a batch to the cache (ProductMonitor.update\_products)\<close>

definition enable_buttons :: "monitor \<Rightarrow> monitor" where
  "enable_buttons m = m\<lparr>refresh_btn_enabled := True, load_more_btn_enabled := True\<rparr>"

text \<open>
  The slot of \<^verbatim>\<open>update_signal\<close>. An empty batch only gives the buttons back. Otherwise,
  inside one \<^verbatim>\<open>try\<close>: the alert check, the marks of the previous batch taken off, the
  loop over the batch, the two saves; the handler logs and gives the buttons back. The
  result is the state, the files, and the products an alert was shown for.
\<close>

definition update_products ::
  "builtins \<Rightarrow> io_faults \<Rightarrow> product list \<Rightarrow> monitor \<times> files \<Rightarrow> (monitor \<times> files) \<times> product list" where
  "update_products B io products st =
     (case st of (m, fs) \<Rightarrow>
        if products = [] then ((enable_buttons m, fs), [])
        else
          (case check_price_alerts m products of
             Inl e \<Rightarrow> ((enable_buttons m, fs), [])
           | Inr alerts \<Rightarrow>
               let old_refresh_ids = last_refresh_ids m;
                   m1 = m\<lparr>last_refresh_count := length products,
                          last_refresh_ids := p_id ` set products,
                          product_cache := unmark_old old_refresh_ids (product_cache m)\<rparr>
               in (case upsert_products B products (product_cache m1, 0, 0) of
                     ((cache, new_count, updated_count), Some e) \<Rightarrow>
                       ((enable_buttons (m1\<lparr>product_cache := cache\<rparr>), fs), alerts)
                   | ((cache, new_count, updated_count), None) \<Rightarrow>
                       let m2 = m1\<lparr>product_cache := cache, total_products_count := length cache\<rparr>;
                           fs1 = (if min_price_products m2 \<noteq> []
                                  then fst (save_min_price_products (min_price_fault io) m2 fs)
                                  else fs);
                           fs2 = fst (save_product_cache (product_cache_fault io) m2 fs1)
                       in ((enable_buttons m2, fs2), alerts))))"

section \<open>Start-up (ProductMonitor.\_\_init\_\_)\<close>

definition initial_worker :: worker where
  "initial_worker =
     \<lparr> next_id = JNull, is_refresh = False, auto_load_more = False, auto_load_pages = 3,
       worker_api_cooldown = JNum 2000 \<rparr>"

definition initial_monitor :: "json \<Rightarrow> monitor" where
  "initial_monitor loaded_cookies =
     \<lparr> product_cache = [], min_price_products = [], refresh_interval = 5,
       cookies = loaded_cookies, last_refresh_count = 0, total_products_count = 0,
       last_refresh_ids = {}, columns_count = JNum 8, sidebar_columns_count = JNum 3,
       api_cooldown = JNum 2000, card_width = JNum 150, card_height = JNum 180,
       is_paused = False, remaining_time = 0, price_alert_enabled = JBool False,
       price_alert_threshold = JNum 0, refresh_btn_enabled = True,
       load_more_btn_enabled = True, worker_thread = initial_worker \<rparr>"


section \<open>Fetching pages (WorkerThread.run, refresh\_data, load\_more\_data, auto\_load\_more)\<close>

text \<open>
  What the request comes to: \<^verbatim>\<open>requests.post\<close> raises, or answers with a status code
  and a body that \<^verbatim>\<open>response.json()\<close> reads or fails to read.
\<close>

datatype http = Raised | Response int "json option"

datatype error_kind = Request_failed int | Network_error py_error | Processing_failed py_error

datatype signal = Update_signal "product list" | Error_signal error_kind | Auto_load_signal

text \<open>\<^verbatim>\<open>WorkerThread.refresh_data\<close>.\<close>

definition worker_refresh_data :: "worker \<Rightarrow> worker" where
  "worker_refresh_data w = w\<lparr>is_refresh := True, auto_load_more := True, auto_load_pages := 3\<rparr>"

text \<open>
  The block under \<^verbatim>\<open>if next_id:\<close> and its \<^verbatim>\<open>else\<close>: the worker afterwards, and
  whether \<^verbatim>\<open>auto_load_signal\<close> was emitted.
\<close>

definition keep_next_id :: "worker \<Rightarrow> json \<Rightarrow> worker \<times> bool" where
  "keep_next_id w new_next_id =
     (if truthy new_next_id
      then (let w2 = w\<lparr>next_id := new_next_id\<rparr> in
            if auto_load_more w2 \<and> auto_load_pages w2 > 1
            then (w2\<lparr>auto_load_pages := auto_load_pages w2 - 1\<rparr>, True)
            else (w2, False))
      else (w\<lparr>auto_load_more := False\<rparr>, False))"

text \<open>The expression \<^verbatim>\<open>data.get('data', {}).get('nextId')\<close>.\<close>

definition response_next_id :: "json \<Rightarrow> py_error + json" where
  "response_next_id data = bind_py (dict_get data ''data'' (JObj [])) (\<lambda>d. dict_get d ''nextId'' JNull)"

text \<open>The block under \<^verbatim>\<open>if self.is_refresh:\<close> at the start of \<^verbatim>\<open>run\<close>.\<close>

definition begin_run :: "worker \<Rightarrow> worker" where
  "begin_run w = (if is_refresh w then w\<lparr>next_id := JNull, is_refresh := False\<rparr> else w)"

text \<open>
  The branch for status 200, from the log line that reads \<^verbatim>\<open>data.get('code')\<close> to
  \<^verbatim>\<open>update_signal.emit(products)\<close>. An exception goes to the handler of \<^verbatim>\<open>run\<close>, which
  emits the error signal; what was changed before it stays changed.
\<close>

definition handle_data ::
  "builtins \<Rightarrow> json \<Rightarrow> monitor \<times> nat \<Rightarrow> (monitor \<times> nat) \<times> signal list" where
  "handle_data B data st =
     (case st of (m, k) \<Rightarrow>
       (case dict_get data ''code'' JNull of
          Inl e \<Rightarrow> ((m, k), [Error_signal (Network_error e)])
        | Inr code \<Rightarrow>
            (case process_response B data (min_price_products m, k) of
               ((products, mp, k'), failed) \<Rightarrow>
                 let m2 = m\<lparr>min_price_products := mp\<rparr>;
                     sigs = (case failed of None \<Rightarrow> [] | Some e \<Rightarrow> [Error_signal (Processing_failed e)])
                 in (case response_next_id data of
                       Inl e \<Rightarrow> ((m2, k'), sigs @ [Error_signal (Network_error e)])
                     | Inr new_next_id \<Rightarrow>
                         (case keep_next_id (worker_thread m2) new_next_id of
                            (w, auto) \<Rightarrow>
                              ((m2\<lparr>worker_thread := w\<rparr>, k'),
                               sigs @ (if auto then [Auto_load_signal] else []) @ [Update_signal products]))))))"

text \<open>
  \<^verbatim>\<open>WorkerThread.run\<close> on the window's state and the clock, given what the request comes
  to. The result: the state, the \<^verbatim>\<open>nextId\<close> that was posted (none when the run failed
  before the request), and the signals emitted, in order.
\<close>

definition run ::
  "builtins \<Rightarrow> http \<Rightarrow> monitor \<times> nat \<Rightarrow> (monitor \<times> nat) \<times> json option \<times> signal list" where
  "run B resp st =
     (case st of (m, k) \<Rightarrow>
       (case dict_get (cookies m) ''cookie'' (JStr []) of
          Inl e \<Rightarrow> ((m, k), None, [Error_signal (Network_error e)])
        | Inr cookie \<Rightarrow>
            let w1 = begin_run (worker_thread m);
                m1 = m\<lparr>worker_thread := w1\<rparr>;
                posted = Some (next_id w1)
            in (case resp of
                  Raised \<Rightarrow> ((m1, k), posted, [Error_signal (Network_error RequestException)])
                | Response status body \<Rightarrow>
                    if status \<noteq> 200 then ((m1, k), posted, [Error_signal (Request_failed status)])
                    else
                      (case body of
                         None \<Rightarrow> ((m1, k), posted, [Error_signal (Network_error JSONDecodeError)])
                       | Some data \<Rightarrow>
                           (case handle_data B data (m1, k) of (st', sigs) \<Rightarrow> (st', posted, sigs))))))"

text \<open>
  The window's side. \<^verbatim>\<open>refresh_data\<close> does nothing when the timer calls it while
  paused; otherwise it takes the buttons away, puts the worker in refresh mode and starts
  it. \<^verbatim>\<open>load_more_data\<close> turns automatic loading off and starts the worker with the
  \<^verbatim>\<open>nextId\<close> it has. The flag returned says whether the worker was started.
\<close>

definition refresh_data :: "bool \<Rightarrow> monitor \<Rightarrow> monitor \<times> bool" where
  "refresh_data sender_is_timer m =
     (if is_paused m \<and> sender_is_timer then (m, False)
      else (m\<lparr>refresh_btn_enabled := False, load_more_btn_enabled := False,
               worker_thread := worker_refresh_data (worker_thread m),
               remaining_time := refresh_interval m\<rparr>, True))"

definition load_more_data :: "monitor \<Rightarrow> monitor \<times> bool" where
  "load_more_data m =
     (m\<lparr>load_more_btn_enabled := False,
        worker_thread := (worker_thread m)\<lparr>auto_load_more := False\<rparr>\<rparr>, True)"

text \<open>
  What the outside sees: a request posted with a \<^verbatim>\<open>nextId\<close>, a one-shot timer armed
  with a delay (\<^verbatim>\<open>auto_load_more\<close>: when it fires the worker is started again), an alert,
  an error box.
\<close>

datatype event = Post json | Single_shot json | Show_alert "product list" | Show_error error_kind

text \<open>The slots the three signals are connected to.\<close>

fun deliver ::
  "builtins \<Rightarrow> io_faults \<Rightarrow> signal \<Rightarrow> monitor \<times> files \<Rightarrow> (monitor \<times> files) \<times> event list" where
  "deliver B io (Update_signal products) st =
     (case update_products B io products st of
        (st', alerts) \<Rightarrow> (st', if alerts = [] then [] else [Show_alert alerts]))"
| "deliver B io (Error_signal e) st = (st, [Show_error e])"
| "deliver B io Auto_load_signal st = (st, [Single_shot (api_cooldown (fst st))])"

fun deliver_all ::
  "builtins \<Rightarrow> io_faults \<Rightarrow> signal list \<Rightarrow> monitor \<times> files \<Rightarrow> (monitor \<times> files) \<times> event list" where
  "deliver_all B io [] st = (st, [])"
| "deliver_all B io (sig # sigs) st =
     (case deliver B io sig st of
        (st', evs) \<Rightarrow> (case deliver_all B io sigs st' of (st'', evs') \<Rightarrow> (st'', evs @ evs')))"

text \<open>
  Starting the worker, and what follows from it until no timer is armed: the run, its
  signals delivered to the slots, and, when the timer was armed, the next start after the
  delay. The list holds what the successive requests come to; when it is used up nothing
  more is observed.
\<close>

fun start ::
  "builtins \<Rightarrow> io_faults \<Rightarrow> http list \<Rightarrow> monitor \<times> files \<times> nat
     \<Rightarrow> (monitor \<times> files \<times> nat) \<times> event list" where
  "start B io [] st = (st, [])"
| "start B io (resp # resps) (m, fs, k) =
     (case run B resp (m, k) of
        ((m1, k1), posted, sigs) \<Rightarrow>
          (case deliver_all B io sigs (m1, fs) of
             ((m2, fs2), evs) \<Rightarrow>
               let seen = (case posted of None \<Rightarrow> [] | Some n \<Rightarrow> [Post n]) @ evs in
               if Auto_load_signal \<in> set sigs
               then (case start B io resps (m2, fs2, k1) of (st', evs') \<Rightarrow> (st', seen @ evs'))
               else ((m2, fs2, k1), seen)))"

text \<open>A refresh from start to end, and a manual "load more".\<close>

definition refresh ::
  "builtins \<Rightarrow> io_faults \<Rightarrow> bool \<Rightarrow> http list \<Rightarrow> monitor \<times> files \<times> nat
     \<Rightarrow> (monitor \<times> files \<times> nat) \<times> event list" where
  "refresh B io sender_is_timer resps st =
     (case st of (m, fs, k) \<Rightarrow>
        (case refresh_data sender_is_timer m of
           (m', started) \<Rightarrow> if started then start B io resps (m', fs, k) else ((m', fs, k), [])))"

definition load_more ::
  "builtins \<Rightarrow> io_faults \<Rightarrow> http list \<Rightarrow> monitor \<times> files \<times> nat
     \<Rightarrow> (monitor \<times> files \<times> nat) \<times> event list" where
  "load_more B io resps st =
     (case st of (m, fs, k) \<Rightarrow> start B io resps (fst (load_more_data m), fs, k))"

section \<open>Notions used in the statements\<close>

text \<open>
  A name is comparable when the records hold nothing for it, or a record with a price: the
  comparison of the update can then be made. Records the program wrote itself are priced.
\<close>

definition comparable :: "min_prices \<Rightarrow> string \<Rightarrow> bool" where
  "comparable mp name = (case map_of mp name of None \<Rightarrow> True | Some r \<Rightarrow> stored_price r \<noteq> None)"


text \<open>
  The price recorded after a list of prices has been offered one by one: the least so
  far, a new price taking its place only when it is strictly lower.
\<close>

definition lower_than :: "rat option \<Rightarrow> rat \<Rightarrow> bool" where
  "lower_than cur x = (case cur of None \<Rightarrow> True | Some c \<Rightarrow> x < c)"





text \<open>
  What a request comes to, read as the feed's answer: the \<^verbatim>\<open>nextId\<close> of a body that
  came with status 200, was read as a dict and holds a dict (or nothing) under
  \<^verbatim>\<open>'data'\<close>. Of the events, the requests and the timers are the paging; the window is
  idle for the user when both buttons are given back.
\<close>

fun fetched_next_id :: "http \<Rightarrow> json option" where
  "fetched_next_id (Response status (Some (JObj kvs))) =
     (if status = 200
      then (case response_next_id (JObj kvs) of Inr new_next_id \<Rightarrow> Some new_next_id | Inl e \<Rightarrow> None)
      else None)"
| "fetched_next_id _ = None"

fun is_paging :: "event \<Rightarrow> bool" where
  "is_paging (Post n) = True"
| "is_paging (Single_shot d) = True"
| "is_paging _ = False"

definition paging_events :: "event list \<Rightarrow> event list" where
  "paging_events evs = filter is_paging evs"

definition idle_buttons :: "monitor \<Rightarrow> bool" where
  "idle_buttons m = (refresh_btn_enabled m \<and> load_more_btn_enabled m)"






definition with_ids :: "min_prices \<Rightarrow> bool" where
  "with_ids mp =
     list_all (\<lambda>kv. case snd kv of JObj kvs \<Rightarrow> map_of kvs ''id'' \<noteq> None | _ \<Rightarrow> False) mp"

section \<open>Concrete inputs for the examples\<close>

text \<open>
  A \<^verbatim>\<open>str\<close> that is right on strings and a clock that counts; items and answers of the
  feed in its documented shape; an item with an empty list of details, and items without a
  price; a product as the loop returns it; no write failing, no file present; a settings
  file and a saved card; the card and the window after the one batch of the product
  \<open>1\<close>, named \<open>A\<close>, at the price 10.
\<close>

definition text_str :: "json \<Rightarrow> string" where
  "text_str v = (case v of JStr s \<Rightarrow> s | _ \<Rightarrow> [])"

definition demo_builtins :: builtins where
  "demo_builtins = \<lparr> py_str = text_str, time_time = of_nat \<rparr>"

definition feed_item :: "string \<Rightarrow> string \<Rightarrow> rat \<Rightarrow> json" where
  "feed_item cid name price =
     JObj [(''c2cItemsId'', JStr cid),
           (''detailDtoList'', JList [JObj [(''name'', JStr name), (''img'', JStr ''//i0.hdslb.com/a.png'')]]),
           (''price'', JNum price)]"

definition feed_body :: "json list \<Rightarrow> json \<Rightarrow> json" where
  "feed_body items next =
     JObj [(''code'', JNum 0), (''message'', JStr ''success''),
           (''data'', JObj [(''data'', JList items), (''nextId'', next)])]"

definition page :: "json list \<Rightarrow> json \<Rightarrow> http" where
  "page items next = Response 200 (Some (feed_body items next))"




definition listed :: "string \<Rightarrow> string \<Rightarrow> rat \<Rightarrow> product" where
  "listed cid name price =
     \<lparr> p_id = cid, p_name = name, p_price = price,
       p_image = ''https://i0.hdslb.com/a.png'', p_detail_url = detail_url_of cid \<rparr>"

definition no_faults :: io_faults where
  "no_faults = \<lparr> settings_fault = No_fault, product_cache_fault = No_fault, min_price_fault = No_fault \<rparr>"

definition no_files :: files where
  "no_files = \<lparr> cookies_json = Missing, settings_json = Missing,
                 product_cache_json = Missing, min_price_history_json = Missing \<rparr>"

definition good_settings :: disk_file where
  "good_settings = Content (JObj [(''columns_count'', JNum 6)])"




section \<open>Basic facts\<close>

lemma bind_py_simps:
  "bind_py (Inl e) f = Inl e" "bind_py (Inr x) f = f x"
  by (simp_all add: bind_py_def)






lemma is_lower_comparable:
  assumes "comparable mp (p_name p)"
  shows "is_lower mp p = Inr (lower_than (min_price_of mp (p_name p)) (p_price p))"
proof (cases "map_of mp (p_name p)")
  case None
  then show ?thesis by (simp add: is_lower_def min_price_of_def lower_than_def)
next
  case (Some r)
  with assms obtain c where c: "stored_price r = Some c" by (auto simp: comparable_def)
  then obtain v where v: "subscript_key r ''price'' = Inr v" "py_num v = Some c"
    by (cases "subscript_key r ''price''") (auto simp: stored_price_def)
  with Some c show ?thesis
    by (simp add: is_lower_def min_price_of_def lower_than_def float_lt_def bind_py_simps)
qed

lemma is_lower_not_comparable:
  assumes "\<not> comparable mp (p_name p)"
  shows "\<exists>e. is_lower mp p = Inl e"
proof -
  from assms obtain r where r: "map_of mp (p_name p) = Some r" "stored_price r = None"
    by (auto simp: comparable_def split: option.splits)
  show ?thesis
  proof (cases "subscript_key r ''price''")
    case (Inl e)
    with r show ?thesis by (simp add: is_lower_def bind_py_simps)
  next
    case (Inr v)
    with r have "py_num v = None" by (simp add: stored_price_def)
    with r Inr show ?thesis by (simp add: is_lower_def bind_py_simps float_lt_def)
  qed
qed

lemma process_item_eq:
  "process_item B item (mp, k) =
     (case normalize_item B item of
        Inl e \<Rightarrow> (None, mp, k)
      | Inr p \<Rightarrow>
          if comparable mp (p_name p)
          then (if lower_than (min_price_of mp (p_name p)) (p_price p)
                then (Some p, AList.update (p_name p) (min_price_record p (time_time B k)) mp, Suc k)
                else (Some p, mp, k))
          else (None, mp, k))"
proof (cases "normalize_item B item")
  case (Inl e)
  then show ?thesis by (simp add: process_item_def bind_py_simps)
next
  case (Inr p)
  show ?thesis
  proof (cases "comparable mp (p_name p)")
    case True
    with Inr show ?thesis by (simp add: process_item_def bind_py_simps is_lower_comparable)
  next
    case False
    then obtain e where "is_lower mp p = Inl e" using is_lower_not_comparable by blast
    with Inr False show ?thesis by (simp add: process_item_def bind_py_simps)
  qed
qed




section \<open>The lowest-price records hold the minimum\<close>













section \<open>A malformed item does not stop the batch\<close>









section \<open>An item without a price\<close>










section \<open>The alert check\<close>

lemma alert_products_number:
  "alert_products (JNum t) products = Inr (filter (\<lambda>p. p_price p \<le> t) products)"
  by (induction products) (simp_all add: float_le_def bind_py_simps)

text \<open>
  Claim C3. With the alert switched on and a positive threshold, the products alerted are
  exactly those of the batch whose price is at most the threshold, the threshold itself
  included; with the alert off (whatever the threshold holds) or a threshold that is not
  positive, none is.
\<close>

theorem price_alerts_threshold:
  fixes m :: monitor and products :: "product list"
  shows "(\<not> truthy (price_alert_enabled m) \<longrightarrow> check_price_alerts m products = Inr [])
       \<and> (\<forall>t. price_alert_threshold m = JNum t \<and> t \<le> 0 \<longrightarrow> check_price_alerts m products = Inr [])
       \<and> (\<forall>t. truthy (price_alert_enabled m) \<and> price_alert_threshold m = JNum t \<and> 0 < t \<longrightarrow>
              check_price_alerts m products = Inr (filter (\<lambda>p. p_price p \<le> t) products))
       \<and> (\<forall>enabled t.
              check_price_alerts (m\<lparr>price_alert_enabled := JBool enabled, price_alert_threshold := JNum t\<rparr>)
                products
              = Inr (if enabled \<and> 0 < t then filter (\<lambda>p. p_price p \<le> t) products else []))"
proof -
  have off: "\<not> truthy (price_alert_enabled m) \<longrightarrow> check_price_alerts m products = Inr []"
    by (simp add: check_price_alerts_def)
  have low: "check_price_alerts m products = Inr []" if "price_alert_threshold m = JNum t" "t \<le> 0" for t
    using that by (simp add: check_price_alerts_def le_number_def bind_py_simps)
  have on: "check_price_alerts m products = Inr (filter (\<lambda>p. p_price p \<le> t) products)"
    if "truthy (price_alert_enabled m)" "price_alert_threshold m = JNum t" "0 < t" for t
    using that by (simp add: check_price_alerts_def le_number_def bind_py_simps alert_products_number)
  have both: "check_price_alerts (m\<lparr>price_alert_enabled := JBool enabled, price_alert_threshold := JNum t\<rparr>)
                products
              = Inr (if enabled \<and> 0 < t then filter (\<lambda>p. p_price p \<le> t) products else [])" for enabled t
    by (simp add: check_price_alerts_def le_number_def bind_py_simps alert_products_number)
  from off low on both show ?thesis by blast
qed

theorem price_alerts_threshold_witness:
  "check_price_alerts
     ((initial_monitor (JObj []))\<lparr>price_alert_enabled := JBool True, price_alert_threshold := JNum 5\<rparr>)
     [listed ''1'' ''A'' (499 / 100), listed ''2'' ''B'' 5, listed ''3'' ''C'' (501 / 100)]
   = Inr [listed ''1'' ''A'' (499 / 100), listed ''2'' ''B'' 5]
   \<and> check_price_alerts
     ((initial_monitor (JObj []))\<lparr>price_alert_enabled := JBool False, price_alert_threshold := JNum 5\<rparr>)
     [listed ''1'' ''A'' (499 / 100), listed ''2'' ''B'' 5, listed ''3'' ''C'' (501 / 100)]
   = Inr []"
proof -
  note alerts = price_alerts_threshold[of "initial_monitor (JObj [])"
      "[listed ''1'' ''A'' (499 / 100), listed ''2'' ''B'' 5, listed ''3'' ''C'' (501 / 100)]"]
  have prices: "p_price (listed cid name price) = price" for cid name price
    by (simp add: listed_def)
  from alerts have on: "check_price_alerts
     ((initial_monitor (JObj []))\<lparr>price_alert_enabled := JBool True, price_alert_threshold := JNum 5\<rparr>)
     [listed ''1'' ''A'' (499 / 100), listed ''2'' ''B'' 5, listed ''3'' ''C'' (501 / 100)]
     = Inr (if True \<and> (0::rat) < 5 then filter (\<lambda>p. p_price p \<le> 5)
              [listed ''1'' ''A'' (499 / 100), listed ''2'' ''B'' 5, listed ''3'' ''C'' (501 / 100)] else [])"
    by blast
  from alerts have off: "check_price_alerts
     ((initial_monitor (JObj []))\<lparr>price_alert_enabled := JBool False, price_alert_threshold := JNum 5\<rparr>)
     [listed ''1'' ''A'' (499 / 100), listed ''2'' ''B'' 5, listed ''3'' ''C'' (501 / 100)]
     = Inr (if False \<and> (0::rat) < 5 then filter (\<lambda>p. p_price p \<le> 5)
              [listed ''1'' ''A'' (499 / 100), listed ''2'' ''B'' 5, listed ''3'' ''C'' (501 / 100)] else [])"
    by blast
  show ?thesis unfolding on off by (simp add: prices)
qed

section \<open>Signals and slots\<close>

lemma update_products_frame:
  assumes "update_products B io products (m, fs) = ((m', fs'), alerts)"
  shows "worker_thread m' = worker_thread m \<and> cookies m' = cookies m
       \<and> api_cooldown m' = api_cooldown m \<and> min_price_products m' = min_price_products m
       \<and> idle_buttons m'"
proof (cases "products = []")
  case True
  with assms show ?thesis by (auto simp: update_products_def enable_buttons_def idle_buttons_def)
next
  case False
  show ?thesis
  proof (cases "check_price_alerts m products")
    case (Inl e)
    with assms False show ?thesis
      by (auto simp: update_products_def enable_buttons_def idle_buttons_def)
  next
    case (Inr a)
    let ?m1 = "m\<lparr>last_refresh_count := length products,
                  last_refresh_ids := p_id ` set products,
                  product_cache := unmark_old (last_refresh_ids m) (product_cache m)\<rparr>"
    obtain cache n u err where up:
      "upsert_products B products (product_cache ?m1, 0, 0) = ((cache, n, u), err)"
      by (cases "upsert_products B products (product_cache ?m1, 0, 0)") auto
    show ?thesis
    proof (cases err)
      case None
      with assms False Inr up show ?thesis
        by (auto simp: update_products_def enable_buttons_def idle_buttons_def Let_def)
    next
      case (Some e)
      with assms False Inr up show ?thesis
        by (auto simp: update_products_def enable_buttons_def idle_buttons_def Let_def)
    qed
  qed
qed

lemma deliver_frame:
  assumes "deliver B io sig (m, fs) = ((m', fs'), evs)"
  shows "worker_thread m' = worker_thread m \<and> cookies m' = cookies m
       \<and> api_cooldown m' = api_cooldown m \<and> min_price_products m' = min_price_products m
       \<and> paging_events evs = (if sig = Auto_load_signal then [Single_shot (api_cooldown m)] else [])
       \<and> ((\<exists>products. sig = Update_signal products) \<or> idle_buttons m \<longrightarrow> idle_buttons m')"
proof (cases sig)
  case (Update_signal products)
  obtain st' alerts where up: "update_products B io products (m, fs) = (st', alerts)"
    by (cases "update_products B io products (m, fs)") auto
  with assms Update_signal have st': "st' = (m', fs')" and evs: "evs = (if alerts = [] then [] else [Show_alert alerts])"
    by auto
  from update_products_frame[OF up[unfolded st']] evs Update_signal show ?thesis
    by (auto simp: paging_events_def)
next
  case (Error_signal e)
  with assms show ?thesis by (auto simp: paging_events_def)
next
  case Auto_load_signal
  with assms show ?thesis by (auto simp: paging_events_def)
qed

lemma deliver_all_frame:
  assumes "deliver_all B io sigs (m, fs) = ((m', fs'), evs)"
  shows "worker_thread m' = worker_thread m \<and> cookies m' = cookies m
       \<and> api_cooldown m' = api_cooldown m \<and> min_price_products m' = min_price_products m
       \<and> paging_events evs = map (\<lambda>s. Single_shot (api_cooldown m)) (filter (\<lambda>s. s = Auto_load_signal) sigs)
       \<and> ((\<exists>products. Update_signal products \<in> set sigs) \<or> idle_buttons m \<longrightarrow> idle_buttons m')"
  using assms
proof (induction sigs arbitrary: m fs evs)
  case Nil
  then show ?case by (simp add: paging_events_def)
next
  case (Cons sig sigs)
  obtain m1 fs1 evs1 where d: "deliver B io sig (m, fs) = ((m1, fs1), evs1)"
    by (cases "deliver B io sig (m, fs)") auto
  obtain evs2 where rest: "deliver_all B io sigs (m1, fs1) = ((m', fs'), evs2)" and evs: "evs = evs1 @ evs2"
    using Cons.prems d by (auto split: prod.splits)
  note f1 = deliver_frame[OF d]
  note f2 = Cons.IH[OF rest]
  have pe: "paging_events evs = paging_events evs1 @ paging_events evs2"
    by (simp add: evs paging_events_def)
  from f1 f2 pe show ?case by auto
qed

lemma fetched_next_idD:
  assumes "fetched_next_id resp = Some new_next_id"
  shows "\<exists>kvs. resp = Response 200 (Some (JObj kvs)) \<and> response_next_id (JObj kvs) = Inr new_next_id"
  using assms
  by (cases resp rule: fetched_next_id.cases) (auto split: if_splits sum.splits)

lemma run_fetched:
  assumes ck: "dict_get (cookies m) ''cookie'' (JStr []) = Inr cookie"
    and got: "fetched_next_id resp = Some new_next_id"
  shows "\<exists>products mp k' errs.
           run B resp (m, k) =
             ((m\<lparr>worker_thread := fst (keep_next_id (begin_run (worker_thread m)) new_next_id),
                  min_price_products := mp\<rparr>, k'),
              Some (next_id (begin_run (worker_thread m))),
              errs @ (if snd (keep_next_id (begin_run (worker_thread m)) new_next_id)
                      then [Auto_load_signal] else []) @ [Update_signal products])
         \<and> Auto_load_signal \<notin> set errs"
proof -
  from got obtain kvs where resp: "resp = Response 200 (Some (JObj kvs))"
    and nid: "response_next_id (JObj kvs) = Inr new_next_id"
    using fetched_next_idD by blast
  let ?w1 = "begin_run (worker_thread m)"
  obtain products mp k' failed where pr:
    "process_response B (JObj kvs) (min_price_products (m\<lparr>worker_thread := ?w1\<rparr>), k) = ((products, mp, k'), failed)"
    by (cases "process_response B (JObj kvs) (min_price_products (m\<lparr>worker_thread := ?w1\<rparr>), k)") auto
  let ?errs = "case failed of None \<Rightarrow> [] | Some e \<Rightarrow> [Error_signal (Processing_failed e)]"
  obtain w auto where keep: "keep_next_id ?w1 new_next_id = (w, auto)"
    by (cases "keep_next_id ?w1 new_next_id") auto
  have hd: "handle_data B (JObj kvs) (m\<lparr>worker_thread := ?w1\<rparr>, k) =
          ((m\<lparr>worker_thread := w, min_price_products := mp\<rparr>, k'),
           ?errs @ (if auto then [Auto_load_signal] else []) @ [Update_signal products])"
    using pr nid keep by (simp add: handle_data_def Let_def)
  have "run B resp (m, k) =
          ((m\<lparr>worker_thread := w, min_price_products := mp\<rparr>, k'),
           Some (next_id ?w1),
           ?errs @ (if auto then [Auto_load_signal] else []) @ [Update_signal products])"
    using ck hd by (simp add: run_def resp Let_def)
  moreover have "Auto_load_signal \<notin> set ?errs" by (cases failed) auto
  ultimately show ?thesis using keep by auto
qed

lemma start_step:
  assumes ck: "dict_get (cookies m) ''cookie'' (JStr []) = Inr cookie"
    and got: "fetched_next_id resp = Some new_next_id"
  shows "\<exists>m1 fs1 k1 evs1.
           worker_thread m1 = fst (keep_next_id (begin_run (worker_thread m)) new_next_id)
         \<and> cookies m1 = cookies m \<and> api_cooldown m1 = api_cooldown m \<and> idle_buttons m1
         \<and> paging_events evs1 =
              Post (next_id (begin_run (worker_thread m)))
                # (if snd (keep_next_id (begin_run (worker_thread m)) new_next_id)
                   then [Single_shot (api_cooldown m)] else [])
         \<and> start B io (resp # rest) (m, fs, k) =
              (if snd (keep_next_id (begin_run (worker_thread m)) new_next_id)
               then (case start B io rest (m1, fs1, k1) of (st', evs') \<Rightarrow> (st', evs1 @ evs'))
               else ((m1, fs1, k1), evs1))"
proof -
  let ?w = "fst (keep_next_id (begin_run (worker_thread m)) new_next_id)"
  let ?auto = "snd (keep_next_id (begin_run (worker_thread m)) new_next_id)"
  from run_fetched[OF ck got, of B k] obtain products mp k' errs where
    run: "run B resp (m, k) =
             ((m\<lparr>worker_thread := ?w, min_price_products := mp\<rparr>, k'),
              Some (next_id (begin_run (worker_thread m))),
              errs @ (if ?auto then [Auto_load_signal] else []) @ [Update_signal products])"
    and errs: "Auto_load_signal \<notin> set errs"
    by blast
  let ?m0 = "m\<lparr>worker_thread := ?w, min_price_products := mp\<rparr>"
  let ?sigs = "errs @ (if ?auto then [Auto_load_signal] else []) @ [Update_signal products]"
  obtain m1 fs1 evs where del: "deliver_all B io ?sigs (?m0, fs) = ((m1, fs1), evs)"
    by (cases "deliver_all B io ?sigs (?m0, fs)") auto
  note fr = deliver_all_frame[OF del]
  have flt: "filter (\<lambda>s. s = Auto_load_signal) ?sigs = (if ?auto then [Auto_load_signal] else [])"
    using errs by (auto simp: filter_empty_conv)
  have pe: "paging_events evs = (if ?auto then [Single_shot (api_cooldown m)] else [])"
    using fr unfolding flt by auto
  have mem: "(Auto_load_signal \<in> set ?sigs) = ?auto" using errs by auto
  let ?evs1 = "Post (next_id (begin_run (worker_thread m))) # evs"
  have "start B io (resp # rest) (m, fs, k) =
              (if ?auto
               then (case start B io rest (m1, fs1, k') of (st', evs') \<Rightarrow> (st', ?evs1 @ evs'))
               else ((m1, fs1, k'), ?evs1))"
    using run del mem by (simp add: Let_def)
  moreover have "paging_events ?evs1 =
              Post (next_id (begin_run (worker_thread m)))
                # (if ?auto then [Single_shot (api_cooldown m)] else [])"
    using pe by (simp add: paging_events_def)
  moreover have "worker_thread m1 = ?w" "cookies m1 = cookies m" "api_cooldown m1 = api_cooldown m"
    "idle_buttons m1"
    using fr by auto
  ultimately show ?thesis by blast
qed

section \<open>An answer without a next page ends the paging\<close>

lemma keep_next_id_falsy:
  "\<not> truthy new_next_id \<Longrightarrow> keep_next_id w new_next_id = (w\<lparr>auto_load_more := False\<rparr>, False)"
  by (simp add: keep_next_id_def)

lemma keep_next_id_auto:
  "truthy new_next_id \<Longrightarrow> auto_load_more w \<Longrightarrow> 1 < auto_load_pages w \<Longrightarrow>
   keep_next_id w new_next_id = (w\<lparr>next_id := new_next_id, auto_load_pages := auto_load_pages w - 1\<rparr>, True)"
  by (simp add: keep_next_id_def Let_def)

text \<open>
  Claim C5. When the request is answered with status 200 and a body whose \<^verbatim>\<open>nextId\<close>
  is absent, null or empty, the run emits no \<^verbatim>\<open>auto_load_signal\<close> and turns automatic
  loading off, whatever the worker's flags and page counter were; it emits the update
  signal, so the window gives the buttons back. Started on such an answer, the worker posts
  one request, no timer is armed, and nothing of what the later requests would come to is
  used. (The cookies the window holds are a dict, as they are unless the cookie file holds
  something else; if they are not, a run fails before its request.)
\<close>

theorem empty_next_id_stops:
  assumes ck: "dict_get (cookies m) ''cookie'' (JStr []) = Inr cookie"
    and got: "fetched_next_id resp = Some new_next_id"
    and empty: "\<not> truthy new_next_id"
  shows "(case run B resp (m, k) of
            ((m', k'), posted, sigs) \<Rightarrow>
              Auto_load_signal \<notin> set sigs
            \<and> (\<exists>products. Update_signal products \<in> set sigs)
            \<and> \<not> auto_load_more (worker_thread m'))
       \<and> (case start B io (resp # rest) (m, fs, k) of
            ((m', fs', k'), evs) \<Rightarrow>
              paging_events evs = [Post (next_id (begin_run (worker_thread m)))]
            \<and> idle_buttons m'
            \<and> \<not> auto_load_more (worker_thread m'))
       \<and> start B io (resp # rest) (m, fs, k) = start B io [resp] (m, fs, k)"
proof -
  let ?w1 = "begin_run (worker_thread m)"
  have keep: "keep_next_id ?w1 new_next_id = (?w1\<lparr>auto_load_more := False\<rparr>, False)"
    using empty by (rule keep_next_id_falsy)
  from run_fetched[OF ck got, of B k] obtain products mp k' errs where
    run: "run B resp (m, k) =
             ((m\<lparr>worker_thread := ?w1\<lparr>auto_load_more := False\<rparr>, min_price_products := mp\<rparr>, k'),
              Some (next_id ?w1), errs @ [Update_signal products])"
    and errs: "Auto_load_signal \<notin> set errs"
    unfolding keep by auto
  have 1: "case run B resp (m, k) of
            ((m', k'), posted, sigs) \<Rightarrow>
              Auto_load_signal \<notin> set sigs
            \<and> (\<exists>products. Update_signal products \<in> set sigs)
            \<and> \<not> auto_load_more (worker_thread m')"
    unfolding run using errs by auto
  have step: "\<exists>m1 fs1 k1 evs1.
           worker_thread m1 = ?w1\<lparr>auto_load_more := False\<rparr> \<and> idle_buttons m1
         \<and> paging_events evs1 = [Post (next_id ?w1)]
         \<and> start B io (resp # any) (m, fs, k) = ((m1, fs1, k1), evs1)" for any
    using start_step[OF ck got, of B io any fs k] unfolding keep by auto
  from step[of rest] obtain m1 fs1 k1 evs1 where
    a: "worker_thread m1 = ?w1\<lparr>auto_load_more := False\<rparr>" "idle_buttons m1"
       "paging_events evs1 = [Post (next_id ?w1)]"
       "start B io (resp # rest) (m, fs, k) = ((m1, fs1, k1), evs1)"
    by blast
  have 2: "case start B io (resp # rest) (m, fs, k) of
            ((m', fs', k'), evs) \<Rightarrow>
              paging_events evs = [Post (next_id ?w1)]
            \<and> idle_buttons m'
            \<and> \<not> auto_load_more (worker_thread m')"
    using a by simp
  have 3: "start B io (resp # rest) (m, fs, k) = start B io [resp] (m, fs, k)"
  proof -
    from run_fetched[OF ck got, of B k] keep
    have "Auto_load_signal \<notin> set (snd (snd (run B resp (m, k))))"
      by auto
    then show ?thesis
      by (auto simp: Let_def split: prod.splits)
  qed
  from 1 2 3 show ?thesis by blast
qed

lemma fetched_page: "fetched_next_id (page items next) = Some next"
  by (simp add: page_def feed_body_def response_next_id_def bind_py_simps)

theorem empty_next_id_stops_witness:
  "paging_events (snd (start demo_builtins no_faults [page [] JNull, page [] (JStr ''t9'')]
      (fst (refresh_data False (initial_monitor (JObj []))), no_files, 0))) = [Post JNull]
   \<and> paging_events (snd (start demo_builtins no_faults [page [] (JStr []), page [] (JStr ''t9'')]
      (fst (load_more_data ((initial_monitor (JObj []))\<lparr>worker_thread :=
              initial_worker\<lparr>next_id := JStr ''t1''\<rparr>\<rparr>)), no_files, 0))) = [Post (JStr ''t1'')]"
proof -
  let ?m = "fst (refresh_data False (initial_monitor (JObj [])))"
  let ?n = "fst (load_more_data ((initial_monitor (JObj []))\<lparr>worker_thread :=
              initial_worker\<lparr>next_id := JStr ''t1''\<rparr>\<rparr>))"
  have ck: "dict_get (cookies ?m) ''cookie'' (JStr []) = Inr (JStr [])"
    by (simp add: refresh_data_def initial_monitor_def)
  have ck': "dict_get (cookies ?n) ''cookie'' (JStr []) = Inr (JStr [])"
    by (simp add: load_more_data_def initial_monitor_def)
  have posted: "next_id (begin_run (worker_thread ?m)) = JNull"
    by (simp add: refresh_data_def initial_monitor_def worker_refresh_data_def begin_run_def)
  have posted': "next_id (begin_run (worker_thread ?n)) = JStr ''t1''"
    by (simp add: load_more_data_def initial_monitor_def initial_worker_def begin_run_def)
  have e1: "\<not> truthy JNull" and e2: "\<not> truthy (JStr [])" by simp_all
  from empty_next_id_stops[OF ck fetched_page[of "[]" JNull] e1, where B = demo_builtins and k = 0 and io = no_faults
         and rest = "[page [] (JStr ''t9'')]" and fs = no_files]
  have a: "paging_events (snd (start demo_builtins no_faults [page [] JNull, page [] (JStr ''t9'')]
      (?m, no_files, 0))) = [Post JNull]"
    unfolding posted by (auto simp del: start.simps split: prod.splits)
  from empty_next_id_stops[OF ck' fetched_page[of "[]" "JStr []"] e2, where B = demo_builtins and k = 0 and io = no_faults
         and rest = "[page [] (JStr ''t9'')]" and fs = no_files]
  have b: "paging_events (snd (start demo_builtins no_faults [page [] (JStr []), page [] (JStr ''t9'')]
      (?n, no_files, 0))) = [Post (JStr ''t1'')]"
    unfolding posted' by (auto simp del: start.simps split: prod.splits)
  from a b show ?thesis by blast
qed

section \<open>A refresh loads the following pages by itself\<close>

text \<open>
  Claim C4. A refresh that is not the timer's call while paused puts the worker in refresh
  mode with the page counter at 3, and its first request posts a null \<^verbatim>\<open>nextId\<close>.
  Whenever a request is answered with status 200 and a \<^verbatim>\<open>nextId\<close> that is not empty
  while automatic loading is on and the counter is above 1, the run stores the
  \<^verbatim>\<open>nextId\<close>, takes one off the counter and emits \<^verbatim>\<open>auto_load_signal\<close>; the window arms
  a one-shot timer with its cooldown, and the next request posts the stored \<^verbatim>\<open>nextId\<close>.
  So a refresh whose first answer carries a \<^verbatim>\<open>nextId\<close> and whose second carries none
  posts exactly two requests with one timer between them, and the counter ends at 2. (The
  cookies are a dict, as for C5. The timer's delay is an event here, not time that passes.)
\<close>

theorem refresh_loads_pages:
  assumes ck: "dict_get (cookies m) ''cookie'' (JStr []) = Inr cookie"
  shows "(\<not> (is_paused m \<and> sender_is_timer) \<longrightarrow>
            snd (refresh_data sender_is_timer m)
          \<and> is_refresh (worker_thread (fst (refresh_data sender_is_timer m)))
          \<and> auto_load_more (worker_thread (fst (refresh_data sender_is_timer m)))
          \<and> auto_load_pages (worker_thread (fst (refresh_data sender_is_timer m))) = 3
          \<and> (\<forall>resp. fst (snd (run B resp (fst (refresh_data sender_is_timer m), k))) = Some JNull))
       \<and> (\<forall>resp new_next_id.
             fetched_next_id resp = Some new_next_id \<and> truthy new_next_id
             \<and> auto_load_more (worker_thread m) \<and> 1 < auto_load_pages (worker_thread m) \<longrightarrow>
               (case run B resp (m, k) of
                  ((m', k'), posted, sigs) \<Rightarrow>
                    Auto_load_signal \<in> set sigs
                  \<and> next_id (worker_thread m') = new_next_id
                  \<and> auto_load_pages (worker_thread m') = auto_load_pages (worker_thread m) - 1)
             \<and> (\<forall>resp2 rest.
                   take 3 (paging_events (snd (start B io (resp # resp2 # rest) (m, fs, k))))
                     = [Post (next_id (begin_run (worker_thread m))),
                        Single_shot (api_cooldown m), Post new_next_id]))
       \<and> (\<forall>resp1 resp2 rest t1 t2.
             \<not> (is_paused m \<and> sender_is_timer)
             \<and> fetched_next_id resp1 = Some t1 \<and> truthy t1
             \<and> fetched_next_id resp2 = Some t2 \<and> \<not> truthy t2 \<longrightarrow>
               (case refresh B io sender_is_timer (resp1 # resp2 # rest) (m, fs, k) of
                  ((m', fs', k'), evs) \<Rightarrow>
                    paging_events evs = [Post JNull, Single_shot (api_cooldown m), Post t1]
                  \<and> auto_load_pages (worker_thread m') = 2
                  \<and> \<not> auto_load_more (worker_thread m')
                  \<and> idle_buttons m')
             \<and> auto_load_pages (worker_thread (fst (fst
                   (run B resp1 (fst (refresh_data sender_is_timer m), k))))) = 2)"
proof (intro conjI allI impI)
  assume go: "\<not> (is_paused m \<and> sender_is_timer)"
  let ?m0 = "fst (refresh_data sender_is_timer m)"
  show "snd (refresh_data sender_is_timer m)" using go by (auto simp: refresh_data_def)
  show "is_refresh (worker_thread ?m0)" using go by (auto simp: refresh_data_def worker_refresh_data_def)
  show "auto_load_more (worker_thread ?m0)" using go by (auto simp: refresh_data_def worker_refresh_data_def)
  show "auto_load_pages (worker_thread ?m0) = 3" using go by (auto simp: refresh_data_def worker_refresh_data_def)
  fix resp
  have ck0: "dict_get (cookies ?m0) ''cookie'' (JStr []) = Inr cookie"
    using ck by (auto simp: refresh_data_def)
  have "next_id (begin_run (worker_thread ?m0)) = JNull"
    using go by (auto simp: refresh_data_def worker_refresh_data_def begin_run_def)
  then show "fst (snd (run B resp (?m0, k))) = Some JNull"
    using ck0 by (auto simp: run_def Let_def split: http.splits option.splits prod.splits)
next
  fix resp new_next_id
  assume a: "fetched_next_id resp = Some new_next_id \<and> truthy new_next_id
             \<and> auto_load_more (worker_thread m) \<and> 1 < auto_load_pages (worker_thread m)"
  let ?w1 = "begin_run (worker_thread m)"
  have w1: "auto_load_more ?w1" "auto_load_pages ?w1 = auto_load_pages (worker_thread m)"
    using a by (auto simp: begin_run_def)
  have keep: "keep_next_id ?w1 new_next_id
                = (?w1\<lparr>next_id := new_next_id, auto_load_pages := auto_load_pages ?w1 - 1\<rparr>, True)"
    using a w1 by (intro keep_next_id_auto) auto
  from run_fetched[OF ck, of resp new_next_id B k] a obtain products mp k' errs where
    run: "run B resp (m, k) =
            ((m\<lparr>worker_thread := ?w1\<lparr>next_id := new_next_id, auto_load_pages := auto_load_pages ?w1 - 1\<rparr>,
                 min_price_products := mp\<rparr>, k'),
             Some (next_id ?w1), errs @ [Auto_load_signal] @ [Update_signal products])"
    unfolding keep by auto
  show "case run B resp (m, k) of
          ((m', k'), posted, sigs) \<Rightarrow>
            Auto_load_signal \<in> set sigs
          \<and> next_id (worker_thread m') = new_next_id
          \<and> auto_load_pages (worker_thread m') = auto_load_pages (worker_thread m) - 1"
    unfolding run using w1 by simp
  fix resp2 rest
  from start_step[OF ck, of resp new_next_id B io "resp2 # rest" fs k] a
  obtain m1 fs1 k1 evs1 where
    m1: "worker_thread m1 = ?w1\<lparr>next_id := new_next_id, auto_load_pages := auto_load_pages ?w1 - 1\<rparr>"
        "cookies m1 = cookies m"
    and pe: "paging_events evs1 = [Post (next_id ?w1), Single_shot (api_cooldown m)]"
    and st: "start B io (resp # resp2 # rest) (m, fs, k) =
              (case start B io (resp2 # rest) (m1, fs1, k1) of (st', evs') \<Rightarrow> (st', evs1 @ evs'))"
    unfolding keep by auto
  have ck1: "dict_get (cookies m1) ''cookie'' (JStr []) = Inr cookie" using ck m1 by simp
  have posted2: "next_id (begin_run (worker_thread m1)) = new_next_id"
    using m1 by (simp add: begin_run_def)
  obtain st2 evs2 where s2: "start B io (resp2 # rest) (m1, fs1, k1) = (st2, evs2)"
    by (cases "start B io (resp2 # rest) (m1, fs1, k1)") auto
  have "\<exists>more. evs2 = Post new_next_id # more"
  proof -
    obtain st' p sigs where r2: "run B resp2 (m1, k1) = (st', p, sigs)"
      by (cases "run B resp2 (m1, k1)") auto
    have "p = Some new_next_id"
      using r2 ck1 posted2
      by (auto simp: run_def Let_def split: http.splits option.splits prod.splits if_splits)
    with s2 r2 show ?thesis
      by (cases st') (auto simp: Let_def split: prod.splits if_splits)
  qed
  then obtain more where evs2: "evs2 = Post new_next_id # more" by blast
  have "paging_events (snd (start B io (resp # resp2 # rest) (m, fs, k)))
          = paging_events evs1 @ Post new_next_id # paging_events more"
    unfolding st s2 evs2 by (simp add: paging_events_def)
  then show "take 3 (paging_events (snd (start B io (resp # resp2 # rest) (m, fs, k))))
                     = [Post (next_id ?w1), Single_shot (api_cooldown m), Post new_next_id]"
    by (simp add: pe)
next
  fix resp1 resp2 rest t1 t2
  assume a: "\<not> (is_paused m \<and> sender_is_timer)
             \<and> fetched_next_id resp1 = Some t1 \<and> truthy t1
             \<and> fetched_next_id resp2 = Some t2 \<and> \<not> truthy t2"
  let ?m0 = "fst (refresh_data sender_is_timer m)"
  have m0: "?m0 = m\<lparr>refresh_btn_enabled := False, load_more_btn_enabled := False,
               worker_thread := worker_refresh_data (worker_thread m),
               remaining_time := refresh_interval m\<rparr>" "snd (refresh_data sender_is_timer m)"
    using a by (auto simp: refresh_data_def)
  have ck0: "dict_get (cookies ?m0) ''cookie'' (JStr []) = Inr cookie"
    using ck by (simp add: m0)
  let ?w1 = "begin_run (worker_thread ?m0)"
  have w1: "?w1 = (worker_thread m)\<lparr>is_refresh := False, auto_load_more := True,
                     auto_load_pages := 3, next_id := JNull\<rparr>"
    by (simp add: m0 worker_refresh_data_def begin_run_def)
  have keep1: "keep_next_id ?w1 t1 = (?w1\<lparr>next_id := t1, auto_load_pages := 2\<rparr>, True)"
    using a by (simp add: w1 keep_next_id_def Let_def)
  from run_fetched[OF ck0, of resp1 t1 B k] a
  show "auto_load_pages (worker_thread (fst (fst (run B resp1 (?m0, k))))) = 2"
    unfolding keep1 by auto
  from start_step[OF ck0, of resp1 t1 B io "resp2 # rest" fs k] a
  obtain m1 fs1 k1 evs1 where
    m1: "worker_thread m1 = ?w1\<lparr>next_id := t1, auto_load_pages := 2\<rparr>"
        "cookies m1 = cookies ?m0" "api_cooldown m1 = api_cooldown ?m0"
    and pe: "paging_events evs1 = [Post (next_id ?w1), Single_shot (api_cooldown ?m0)]"
    and st: "start B io (resp1 # resp2 # rest) (?m0, fs, k) =
              (case start B io (resp2 # rest) (m1, fs1, k1) of (st', evs') \<Rightarrow> (st', evs1 @ evs'))"
    unfolding keep1 by auto
  have ck1: "dict_get (cookies m1) ''cookie'' (JStr []) = Inr cookie" using ck0 m1 by simp
  have b1: "begin_run (worker_thread m1) = worker_thread m1"
    by (simp add: m1 w1 begin_run_def)
  have keep2: "keep_next_id (worker_thread m1) t2 = ((worker_thread m1)\<lparr>auto_load_more := False\<rparr>, False)"
    using a by (simp add: keep_next_id_falsy)
  from start_step[OF ck1, of resp2 t2 B io rest fs1 k1] a
  obtain m2 fs2 k2 evs2 where
    m2: "worker_thread m2 = (worker_thread m1)\<lparr>auto_load_more := False\<rparr>" "idle_buttons m2"
    and pe2: "paging_events evs2 = [Post (next_id (worker_thread m1))]"
    and st2: "start B io (resp2 # rest) (m1, fs1, k1) = ((m2, fs2, k2), evs2)"
    unfolding b1 keep2 by auto
  have whole: "refresh B io sender_is_timer (resp1 # resp2 # rest) (m, fs, k) = ((m2, fs2, k2), evs1 @ evs2)"
    using m0(2) st st2 by (simp add: refresh_def case_prod_beta del: start.simps)
  have "paging_events (evs1 @ evs2) = [Post JNull, Single_shot (api_cooldown m), Post t1]"
  proof -
    have n1: "next_id ?w1 = JNull" by (simp add: w1)
    have n2: "next_id (worker_thread m1) = t1" by (simp add: m1)
    have c0: "api_cooldown ?m0 = api_cooldown m" by (simp add: m0)
    have "paging_events (evs1 @ evs2) = paging_events evs1 @ paging_events evs2"
      by (simp add: paging_events_def)
    then show ?thesis unfolding pe pe2 n1 n2 c0 by simp
  qed
  moreover have "auto_load_pages (worker_thread m2) = 2" "\<not> auto_load_more (worker_thread m2)"
    by (simp_all add: m2 m1)
  ultimately show "case refresh B io sender_is_timer (resp1 # resp2 # rest) (m, fs, k) of
                  ((m', fs', k'), evs) \<Rightarrow>
                    paging_events evs = [Post JNull, Single_shot (api_cooldown m), Post t1]
                  \<and> auto_load_pages (worker_thread m') = 2
                  \<and> \<not> auto_load_more (worker_thread m')
                  \<and> idle_buttons m'"
    unfolding whole using m2 by simp
qed

theorem refresh_loads_pages_witness:
  "paging_events (snd (refresh demo_builtins no_faults True
      [page [feed_item ''1'' ''A'' 1000] (JStr ''t1''), page [] JNull, page [] (JStr ''t9'')]
      (initial_monitor (JObj []), no_files, 0)))
     = [Post JNull, Single_shot (JNum 2000), Post (JStr ''t1'')]
   \<and> auto_load_pages (worker_thread (fst (fst (refresh demo_builtins no_faults True
      [page [feed_item ''1'' ''A'' 1000] (JStr ''t1''), page [] JNull, page [] (JStr ''t9'')]
      (initial_monitor (JObj []), no_files, 0))))) = 2"
proof -
  let ?m = "initial_monitor (JObj [])"
  have ck: "dict_get (cookies ?m) ''cookie'' (JStr []) = Inr (JStr [])"
    by (simp add: initial_monitor_def)
  have go: "\<not> (is_paused ?m \<and> True)" by (simp add: initial_monitor_def)
  have cool: "api_cooldown ?m = JNum 2000" by (simp add: initial_monitor_def)
  have t1: "truthy (JStr ''t1'')" and t2: "\<not> truthy JNull" by simp_all
  have prem: "\<not> (is_paused ?m \<and> True)
             \<and> fetched_next_id (page [feed_item ''1'' ''A'' 1000] (JStr ''t1'')) = Some (JStr ''t1'')
             \<and> truthy (JStr ''t1'')
             \<and> fetched_next_id (page [] JNull) = Some JNull \<and> \<not> truthy JNull"
    using go by (simp add: fetched_page)
  note scenario = refresh_loads_pages[OF ck, where B = demo_builtins and io = no_faults and k = 0
      and fs = no_files and sender_is_timer = True, THEN conjunct2, THEN conjunct2, rule_format,
      where ?resp1.0 = "page [feed_item ''1'' ''A'' 1000] (JStr ''t1'')" and ?resp2.0 = "page [] JNull"
        and rest = "[page [] (JStr ''t9'')]" and ?t1.0 = "JStr ''t1''" and ?t2.0 = JNull]
  from scenario[OF prem]
  have "case refresh demo_builtins no_faults True
      [page [feed_item ''1'' ''A'' 1000] (JStr ''t1''), page [] JNull, page [] (JStr ''t9'')]
      (?m, no_files, 0) of
        ((m', fs', k'), evs) \<Rightarrow>
          paging_events evs = [Post JNull, Single_shot (api_cooldown ?m), Post (JStr ''t1'')]
        \<and> auto_load_pages (worker_thread m') = 2
        \<and> \<not> auto_load_more (worker_thread m')
        \<and> idle_buttons m'"
    by (rule conjunct1)
  then show ?thesis unfolding cool by (auto split: prod.splits)
qed

section \<open>Saving writes the files in place\<close>

lemma stopped_after_cases:
  "stopped_after n v f = (if n = 0 then f else if n = 1 then Garbled else Content v)"
proof -
  consider "n = 0" | "n = 1" | "2 \<le> n" by linarith
  then show ?thesis
  proof cases
    case 1
    then show ?thesis by (simp add: stopped_after_def run_steps_def)
  next
    case 2
    then show ?thesis by (simp add: stopped_after_def run_steps_def write_steps_def open_w_def)
  next
    case 3
    then have "take n (write_steps v) = write_steps v" by (simp add: write_steps_def)
    with 3 show ?thesis
      by (simp add: stopped_after_def run_steps_def write_steps_def json_dump_def)
  qed
qed

lemma write_json_cases:
  "write_json ft v f =
     (case ft of No_fault \<Rightarrow> (Content v, None)
               | Open_fails \<Rightarrow> (f, Some OSError)
               | Dump_fails \<Rightarrow> (Garbled, Some OSError))"
  by (cases ft) (simp_all add: write_json_def run_steps_def write_steps_def open_w_def json_dump_def)

text \<open>
  Claim C8, as amended. Each save function writes its file in place: the file is emptied
  when it is opened and filled by the dump, so a process that dies between the two steps
  leaves a file that cannot be read, whatever it held before; only a run that dies before
  the open leaves the old file. An exception of the open or of the dump is caught and
  logged by the save function, which returns; the old content survives a failed open and
  is lost by a failed dump. Each function touches its own file only, and at close each of
  the three files is written whatever happened to the other two.
\<close>

theorem save_writes_in_place:
  "(\<forall>n. stopped_after n v f = (if n = 0 then f else if n = 1 then Garbled else Content v))
   \<and> save_settings ft m fs =
       (fs\<lparr>settings_json := (case ft of No_fault \<Rightarrow> Content (settings_dict m)
                                        | Open_fails \<Rightarrow> settings_json fs
                                        | Dump_fails \<Rightarrow> Garbled)\<rparr>,
        if ft = No_fault then None else Some OSError)
   \<and> save_product_cache ft m fs =
       (fs\<lparr>product_cache_json := (case ft of No_fault \<Rightarrow> Content (cache_data m)
                                             | Open_fails \<Rightarrow> product_cache_json fs
                                             | Dump_fails \<Rightarrow> Garbled)\<rparr>,
        if ft = No_fault then None else Some OSError)
   \<and> save_min_price_products ft m fs =
       (fs\<lparr>min_price_history_json := (case ft of No_fault \<Rightarrow> Content (JObj (min_price_products m))
                                                 | Open_fails \<Rightarrow> min_price_history_json fs
                                                 | Dump_fails \<Rightarrow> Garbled)\<rparr>,
        if ft = No_fault then None else Some OSError)
   \<and> closeEvent io m fs =
       fs\<lparr>min_price_history_json := fst (write_json (min_price_fault io) (JObj (min_price_products m))
                                            (min_price_history_json fs)),
          product_cache_json := fst (write_json (product_cache_fault io) (cache_data m)
                                        (product_cache_json fs)),
          settings_json := fst (write_json (settings_fault io) (settings_dict m) (settings_json fs))\<rparr>"
proof -
  have 1: "\<forall>n. stopped_after n v f = (if n = 0 then f else if n = 1 then Garbled else Content v)"
    by (simp add: stopped_after_cases)
  have 2: "save_settings ft m fs =
       (fs\<lparr>settings_json := (case ft of No_fault \<Rightarrow> Content (settings_dict m)
                                        | Open_fails \<Rightarrow> settings_json fs
                                        | Dump_fails \<Rightarrow> Garbled)\<rparr>,
        if ft = No_fault then None else Some OSError)"
    by (cases ft) (simp_all add: save_settings_def write_json_cases)
  have 3: "save_product_cache ft m fs =
       (fs\<lparr>product_cache_json := (case ft of No_fault \<Rightarrow> Content (cache_data m)
                                             | Open_fails \<Rightarrow> product_cache_json fs
                                             | Dump_fails \<Rightarrow> Garbled)\<rparr>,
        if ft = No_fault then None else Some OSError)"
    by (cases ft) (simp_all add: save_product_cache_def write_json_cases)
  have 4: "save_min_price_products ft m fs =
       (fs\<lparr>min_price_history_json := (case ft of No_fault \<Rightarrow> Content (JObj (min_price_products m))
                                                 | Open_fails \<Rightarrow> min_price_history_json fs
                                                 | Dump_fails \<Rightarrow> Garbled)\<rparr>,
        if ft = No_fault then None else Some OSError)"
    by (cases ft) (simp_all add: save_min_price_products_def write_json_cases)
  have 5: "closeEvent io m fs =
       fs\<lparr>min_price_history_json := fst (write_json (min_price_fault io) (JObj (min_price_products m))
                                            (min_price_history_json fs)),
          product_cache_json := fst (write_json (product_cache_fault io) (cache_data m)
                                        (product_cache_json fs)),
          settings_json := fst (write_json (settings_fault io) (settings_dict m) (settings_json fs))\<rparr>"
    by (simp add: closeEvent_def save_settings_def save_product_cache_def
          save_min_price_products_def case_prod_beta)
  from 1 2 3 4 5 show ?thesis by blast
qed

theorem save_writes_in_place_witness:
  "settings_json (fst (save_settings Dump_fails (initial_monitor (JObj []))
      (no_files\<lparr>settings_json := good_settings\<rparr>))) = Garbled
   \<and> settings_json (fst (save_settings Open_fails (initial_monitor (JObj []))
      (no_files\<lparr>settings_json := good_settings\<rparr>))) = good_settings
   \<and> snd (save_settings Dump_fails (initial_monitor (JObj []))
      (no_files\<lparr>settings_json := good_settings\<rparr>)) = Some OSError"
proof -
  note w = save_writes_in_place[where m = "initial_monitor (JObj [])"
      and fs = "no_files\<lparr>settings_json := good_settings\<rparr>"]
  from w[where ft = Dump_fails] w[where ft = Open_fails] show ?thesis
    by (simp add: no_files_def)
qed

text \<open>
  The claim as stated fails: a save of the settings that dies after the open and before
  the end of the dump leaves, in place of the good file, one that the next start cannot
  read.
\<close>

theorem crash_in_save_counterexample:
  "stopped_after 1 (settings_dict (initial_monitor (JObj []))) good_settings \<noteq> good_settings
   \<and> json_load (stopped_after 1 (settings_dict (initial_monitor (JObj []))) good_settings)
       = Inl JSONDecodeError"
  by (simp add: stopped_after_cases good_settings_def json_load_def)

section \<open>Start-up reads the three files one by one\<close>











section \<open>Saving and starting again\<close>










text \<open>
  The loop of \<^verbatim>\<open>process_response\<close> keeps the records a dict with each name once and an
  \<^verbatim>\<open>'id'\<close> in every record, which is what the statement on saving and starting again
  supposes.
\<close>

lemma with_ids_update:
  assumes "with_ids mp" and "map_of kvs ''id'' \<noteq> None"
  shows "with_ids (AList.update name (JObj kvs) mp)"
  using assms by (induction mp) (auto simp: with_ids_def)

lemma process_items_keeps_records_well_formed:
  assumes "distinct (map fst mp)" and "with_ids mp"
    and "process_items B items (mp, k) = (products, mp', k')"
  shows "distinct (map fst mp') \<and> with_ids mp'"
  using assms
proof (induction items arbitrary: mp k products)
  case Nil
  then show ?case by simp
next
  case (Cons item items)
  obtain r mp1 k1 where step: "process_item B item (mp, k) = (r, mp1, k1)"
    by (cases "process_item B item (mp, k)") auto
  obtain ps where rest: "process_items B items (mp1, k1) = (ps, mp', k')"
    using Cons.prems(3) step by (auto split: prod.splits)
  have "mp1 = mp \<or> (\<exists>p now. mp1 = AList.update (p_name p) (min_price_record p now) mp)"
    using step by (auto simp: process_item_eq split: sum.splits if_splits)
  then have "distinct (map fst mp1) \<and> with_ids mp1"
  proof
    assume "mp1 = mp"
    with Cons.prems show ?thesis by simp
  next
    assume "\<exists>p now. mp1 = AList.update (p_name p) (min_price_record p now) mp"
    then obtain p now where mp1: "mp1 = AList.update (p_name p) (min_price_record p now) mp"
      by blast
    have "distinct (map fst mp1)" unfolding mp1 using Cons.prems(1) by (rule distinct_update)
    moreover have "with_ids mp1"
      unfolding mp1 min_price_record_def using Cons.prems(2) by (rule with_ids_update) simp
    ultimately show ?thesis by blast
  qed
  then show ?case using Cons.IH[OF _ _ rest] by blast
qed









section \<open>A batch applied to the product cache\<close>
















end
